theory Spec2Isabelle
  imports Main "HOL-Library.Multiset"
begin

section \<open>Data model (app/models/database.py)\<close>

text \<open>
  Each mapped class is a record of its columns and each table is the list of its rows in
  insertion order. Integer columns are \<open>int\<close>; \<open>String\<close> and \<open>Text\<close> columns of
  \<open>User\<close> are nullable and hold \<open>string option\<close>; a \<open>DateTime\<close> is an \<open>int\<close> (a point
  on the clock). The column default \<open>datetime.utcnow\<close> is passed to every inserting
  operation as the argument \<open>now\<close>. Row counts (\<open>skip\<close>, \<open>limit\<close>) are \<open>nat\<close>.
\<close>

record User =
  u_id :: int
  u_email :: "string option"
  u_username :: "string option"
  u_hashed_password :: "string option"
  u_full_name :: "string option"
  u_headline :: "string option"
  u_bio :: "string option"
  u_profile_image :: "string option"
  u_location :: "string option"
  u_created_at :: "int option"

record ConnectionRequest =
  cr_id :: int
  cr_sender_id :: int
  cr_receiver_id :: int
  cr_status :: string
  cr_created_at :: int

record Post =
  p_id :: int
  p_author_id :: int
  p_content :: string
  p_image_url :: "string option"
  p_created_at :: int

record Like =
  l_id :: int
  l_post_id :: int
  l_user_id :: int
  l_created_at :: int

record Message =
  msg_id :: int
  msg_sender_id :: int
  msg_receiver_id :: int
  msg_content :: string
  msg_read :: bool
  msg_created_at :: int

text \<open>
  The store. \<open>connections\<close> is the association table: a row \<open>(user_id, connection_id)\<close>.
\<close>

record db =
  users :: "User list"
  connections :: "(int \<times> int) list"
  connection_requests :: "ConnectionRequest list"
  posts :: "Post list"
  likes :: "Like list"
  messages :: "Message list"

text \<open>
  What the operations can raise. \<open>AttributeError\<close> is Python's, on an attribute of
  \<open>None\<close>; \<open>IntegrityError\<close>, \<open>StatementError\<close>, \<open>FlushError\<close> and \<open>TypeError\<close> are
  the ORM's. \<open>ConflictError\<close> is the domain error the specification names; no operation of
  the source constructs it.
\<close>

datatype error =
  AttributeError | IntegrityError | StatementError | FlushError | TypeError | ConflictError

text \<open>The integer primary key given to a new row: one past the largest key of the table.\<close>

definition next_id :: "int list \<Rightarrow> int" where
  "next_id ids = (case ids of [] \<Rightarrow> 1 | x # xs \<Rightarrow> fold max xs x + 1)"

section \<open>Messaging service (app/services/message_service.py)\<close>

definition send_message :: "db \<Rightarrow> int \<Rightarrow> int \<Rightarrow> string \<Rightarrow> int \<Rightarrow> db \<times> Message" where
  "send_message s sender_id receiver_id content now =
     (let message = \<lparr>msg_id = next_id (map msg_id (messages s)),
                     msg_sender_id = sender_id,
                     msg_receiver_id = receiver_id,
                     msg_content = content,
                     msg_read = False,
                     msg_created_at = now\<rparr>
      in (s\<lparr>messages := messages s @ [message]\<rparr>, message))"

definition between :: "int \<Rightarrow> int \<Rightarrow> Message \<Rightarrow> bool" where
  "between user1_id user2_id m \<longleftrightarrow>
     (msg_sender_id m = user1_id \<and> msg_receiver_id m = user2_id) \<or>
     (msg_sender_id m = user2_id \<and> msg_receiver_id m = user1_id)"

text \<open>
  \<open>order_by(created_at.asc()).limit(limit)\<close>: rows with equal keys stay in table order.
\<close>

definition get_conversation :: "db \<Rightarrow> int \<Rightarrow> int \<Rightarrow> nat \<Rightarrow> Message list" where
  "get_conversation s user1_id user2_id limit =
     take limit (sort_key msg_created_at (filter (between user1_id user2_id) (messages s)))"

definition get_conversation_default :: "db \<Rightarrow> int \<Rightarrow> int \<Rightarrow> Message list" where
  "get_conversation_default s user1_id user2_id = get_conversation s user1_id user2_id 50"

definition unread_from :: "int \<Rightarrow> int \<Rightarrow> Message \<Rightarrow> bool" where
  "unread_from sender_id user_id m \<longleftrightarrow>
     msg_sender_id m = sender_id \<and> msg_receiver_id m = user_id \<and> msg_read m = False"

definition mark_messages_as_read :: "db \<Rightarrow> int \<Rightarrow> int \<Rightarrow> db \<times> nat" where
  "mark_messages_as_read s user_id sender_id =
     (let found = filter (unread_from sender_id user_id) (messages s)
      in (s\<lparr>messages := map (\<lambda>m. if unread_from sender_id user_id m
                                    then m\<lparr>msg_read := True\<rparr> else m) (messages s)\<rparr>,
          length found))"

definition get_unread_messages_count :: "db \<Rightarrow> int \<Rightarrow> nat" where
  "get_unread_messages_count s user_id =
     length (filter (\<lambda>m. msg_receiver_id m = user_id \<and> msg_read m = False) (messages s))"

section \<open>User directory and graph service (app/services/user_service.py)\<close>

text \<open>
  \<open>get_password_hash\<close> lives in \<open>app.services.auth\<close>, outside this layer: it is the
  argument \<open>hash\<close>. A unique index rejects a second row with the same non-null value.
\<close>

definition create_user ::
  "(string \<Rightarrow> string) \<Rightarrow> db \<Rightarrow> string \<Rightarrow> string \<Rightarrow> string \<Rightarrow> string \<Rightarrow> int \<Rightarrow> error + db \<times> User" where
  "create_user hash s email username password full_name now =
     (let hashed_password = hash password;
          db_user = \<lparr>u_id = next_id (map u_id (users s)),
                     u_email = Some email,
                     u_username = Some username,
                     u_hashed_password = Some hashed_password,
                     u_full_name = Some full_name,
                     u_headline = None,
                     u_bio = None,
                     u_profile_image = Some ''/static/default_profile.png'',
                     u_location = None,
                     u_created_at = Some now\<rparr>
      in if list_ex (\<lambda>u. u_email u = Some email \<or> u_username u = Some username) (users s)
         then Inl IntegrityError
         else Inr (s\<lparr>users := users s @ [db_user]\<rparr>, db_user))"

definition get_user_by_username :: "db \<Rightarrow> string \<Rightarrow> User option" where
  "get_user_by_username s username = find (\<lambda>u. u_username u = Some username) (users s)"

definition get_user_by_email :: "db \<Rightarrow> string \<Rightarrow> User option" where
  "get_user_by_email s email = find (\<lambda>u. u_email u = Some email) (users s)"

definition get_user_by_id :: "db \<Rightarrow> int \<Rightarrow> User option" where
  "get_user_by_id s user_id = find (\<lambda>u. u_id u = user_id) (users s)"

text \<open>
  The attributes the class \<open>User\<close> declares: its columns and its relationships (with the
  backref \<open>connected_to\<close>).
\<close>

definition user_columns :: "string list" where
  "user_columns = [''id'', ''email'', ''username'', ''hashed_password'', ''full_name'',
     ''headline'', ''bio'', ''profile_image'', ''location'', ''created_at'']"

definition user_relationships :: "string list" where
  "user_relationships = [''experiences'', ''educations'', ''posts'', ''sent_messages'',
     ''received_messages'', ''sent_requests'', ''received_requests'', ''connections'',
     ''connected_to'']"

text \<open>
  Python's \<open>hasattr(user, key)\<close> finds the declared attributes and also every name a
  \<open>User\<close> object inherits from the declarative base and from \<open>object\<close>
  (\<open>__class__\<close>, \<open>__dict__\<close>, \<open>_sa_instance_state\<close>, \<open>metadata\<close> and more). The base
  class is declared outside the source, so these names are the parameter \<open>inherited\<close>.
  A name is foreign when it is inherited and not declared.
\<close>

definition hasattr_user :: "(string \<Rightarrow> bool) \<Rightarrow> string \<Rightarrow> bool" where
  "hasattr_user inherited key \<longleftrightarrow>
     key \<in> set (user_columns @ user_relationships) \<or> inherited key"

definition foreign :: "(string \<Rightarrow> bool) \<Rightarrow> string \<Rightarrow> bool" where
  "foreign inherited key \<longleftrightarrow>
     inherited key \<and> key \<notin> set (user_columns @ user_relationships)"

text \<open>
  A keyword value is text or \<open>None\<close>. The loaded object is the row together with a flag
  telling that \<open>created_at\<close> now holds text: \<open>setattr\<close> accepts it and the flush cannot
  bind it to a \<open>DateTime\<close>. \<open>setattr_user\<close> is the assignment to a declared attribute
  under the guard of \<open>update_profile\<close>, so apart from the columns it names the key is a
  relationship, a collection that refuses a value which is not list-like.
\<close>

definition setattr_user :: "User \<times> bool \<Rightarrow> string \<Rightarrow> string option \<Rightarrow> error + User \<times> bool" where
  "setattr_user obj key v =
     (let user = fst obj; bad = snd obj in
      if key = ''email'' then Inr (user\<lparr>u_email := v\<rparr>, bad)
      else if key = ''username'' then Inr (user\<lparr>u_username := v\<rparr>, bad)
      else if key = ''full_name'' then Inr (user\<lparr>u_full_name := v\<rparr>, bad)
      else if key = ''headline'' then Inr (user\<lparr>u_headline := v\<rparr>, bad)
      else if key = ''bio'' then Inr (user\<lparr>u_bio := v\<rparr>, bad)
      else if key = ''profile_image'' then Inr (user\<lparr>u_profile_image := v\<rparr>, bad)
      else if key = ''location'' then Inr (user\<lparr>u_location := v\<rparr>, bad)
      else if key = ''created_at''
        then (case v of None \<Rightarrow> Inr (user\<lparr>u_created_at := None\<rparr>, False)
                      | Some text \<Rightarrow> Inr (user, True))
      else Inl TypeError)"

text \<open>The test of the loop body on a keyword name.\<close>

definition settable :: "(string \<Rightarrow> bool) \<Rightarrow> string \<Rightarrow> bool" where
  "settable inherited key \<longleftrightarrow>
     hasattr_user inherited key \<and> key \<noteq> ''id'' \<and> key \<noteq> ''hashed_password''"

fun update_profile_loop ::
  "(string \<Rightarrow> bool) \<Rightarrow> (string \<times> string option) list \<Rightarrow> User \<times> bool
     \<Rightarrow> error + User \<times> bool" where
  "update_profile_loop inherited [] obj = Inr obj"
| "update_profile_loop inherited ((key, v) # kwargs) obj =
     (if settable inherited key
      then (case setattr_user obj key v of
              Inl e \<Rightarrow> Inl e
            | Inr obj' \<Rightarrow> update_profile_loop inherited kwargs obj')
      else update_profile_loop inherited kwargs obj)"

text \<open>
  \<open>db.commit()\<close> after the loop: the row with the user's key is rewritten; a changed email or
  username that another row already has violates the unique index.
\<close>

definition taken_by_other :: "db \<Rightarrow> int \<Rightarrow> (User \<Rightarrow> string option) \<Rightarrow> string option \<Rightarrow> bool" where
  "taken_by_other s user_id col v \<longleftrightarrow>
     v \<noteq> None \<and> list_ex (\<lambda>u. u_id u \<noteq> user_id \<and> col u = v) (users s)"

definition commit_user :: "db \<Rightarrow> User \<Rightarrow> User \<times> bool \<Rightarrow> error + db" where
  "commit_user s old obj =
     (let new = fst obj; bad = snd obj in
      if bad then Inl StatementError
      else if (u_email new \<noteq> u_email old \<and> taken_by_other s (u_id old) u_email (u_email new))
            \<or> (u_username new \<noteq> u_username old
                \<and> taken_by_other s (u_id old) u_username (u_username new))
        then Inl IntegrityError
      else Inr (s\<lparr>users := map (\<lambda>u. if u_id u = u_id old then new else u) (users s)\<rparr>))"


text \<open>
  The loop assigns to a foreign name as to any other. What Python and the ORM make of that
  (some raise at once, some break the later flush or refresh, some only shadow a class
  attribute) is not decided by the source: for a keyword map with a foreign name the
  outcome of the call is the parameter \<open>on_inherited\<close>. On every other map the loop and the
  commit are the ones above.
\<close>

definition update_profile ::
  "(string \<Rightarrow> bool)
     \<Rightarrow> (db \<Rightarrow> User \<Rightarrow> (string \<times> string option) list \<Rightarrow> error + db \<times> User option)
     \<Rightarrow> db \<Rightarrow> int \<Rightarrow> (string \<times> string option) list \<Rightarrow> error + db \<times> User option" where
  "update_profile inherited on_inherited s user_id kwargs =
     (case get_user_by_id s user_id of
        None \<Rightarrow> Inr (s, None)
      | Some user \<Rightarrow>
          if list_ex (\<lambda>kv. foreign inherited (fst kv)) kwargs
          then on_inherited s user kwargs
          else
            (case update_profile_loop inherited kwargs (user, False) of
               Inl e \<Rightarrow> Inl e
             | Inr obj \<Rightarrow>
                 (case commit_user s user obj of
                    Inl e \<Rightarrow> Inl e
                  | Inr s' \<Rightarrow> Inr (s', Some (fst obj)))))"

text \<open>
  \<open>user.connections\<close>: the users joined through the association rows whose \<open>user_id\<close> is
  the user's key (\<open>primaryjoin\<close>) and whose \<open>connection_id\<close> is theirs (\<open>secondaryjoin\<close>).
\<close>

definition user_connections :: "db \<Rightarrow> User \<Rightarrow> User list" where
  "user_connections s user =
     concat (map (\<lambda>row. filter (\<lambda>u. u_id u = snd row) (users s))
                 (filter (\<lambda>row. fst row = u_id user) (connections s)))"

definition get_user_connections :: "db \<Rightarrow> int \<Rightarrow> User list" where
  "get_user_connections s user_id =
     (case get_user_by_id s user_id of
        None \<Rightarrow> []
      | Some user \<Rightarrow> user_connections s user)"

definition is_pending :: "int \<Rightarrow> int \<Rightarrow> ConnectionRequest \<Rightarrow> bool" where
  "is_pending sender_id receiver_id r \<longleftrightarrow>
     cr_sender_id r = sender_id \<and> cr_receiver_id r = receiver_id \<and> cr_status r = ''pending''"

text \<open>
  With no pending request, \<open>sender.connections\<close> is read on whatever \<open>get_user_by_id\<close>
  returned; on \<open>None\<close> that raises. Foreign keys are declared but the default store does
  not enforce them, so the receiver is not looked up.
\<close>

definition send_connection_request ::
  "db \<Rightarrow> int \<Rightarrow> int \<Rightarrow> int \<Rightarrow> error + db \<times> ConnectionRequest option" where
  "send_connection_request s sender_id receiver_id now =
     (case find (is_pending sender_id receiver_id) (connection_requests s) of
        Some existing_request \<Rightarrow> Inr (s, Some existing_request)
      | None \<Rightarrow>
          (case get_user_by_id s sender_id of
             None \<Rightarrow> Inl AttributeError
           | Some sender \<Rightarrow>
               if list_ex (\<lambda>conn. u_id conn = receiver_id) (user_connections s sender)
               then Inr (s, None)
               else
                 (let request = \<lparr>cr_id = next_id (map cr_id (connection_requests s)),
                                 cr_sender_id = sender_id,
                                 cr_receiver_id = receiver_id,
                                 cr_status = ''pending'',
                                 cr_created_at = now\<rparr>
                  in Inr (s\<lparr>connection_requests := connection_requests s @ [request]\<rparr>,
                          Some request))))"

text \<open>
  \<open>sender.connections.append(receiver)\<close> adds the one association row
  \<open>(sender.id, receiver.id)\<close>. A missing sender raises on \<open>.connections\<close>; a missing
  receiver puts \<open>None\<close> into the collection, which the flush refuses; a row already present
  violates the primary key of the association table.
\<close>

definition accept_connection_request ::
  "db \<Rightarrow> int \<Rightarrow> error + db \<times> ConnectionRequest option" where
  "accept_connection_request s request_id =
     (case find (\<lambda>r. cr_id r = request_id) (connection_requests s) of
        None \<Rightarrow> Inr (s, None)
      | Some request \<Rightarrow>
          if cr_status request \<noteq> ''pending'' then Inr (s, None)
          else
            (case get_user_by_id s (cr_sender_id request) of
               None \<Rightarrow> Inl AttributeError
             | Some sender \<Rightarrow>
                 (case get_user_by_id s (cr_receiver_id request) of
                    None \<Rightarrow> Inl FlushError
                  | Some receiver \<Rightarrow>
                      if (u_id sender, u_id receiver) \<in> set (connections s)
                      then Inl IntegrityError
                      else Inr (s\<lparr>connection_requests :=
                                    map (\<lambda>r. if cr_id r = request_id
                                              then r\<lparr>cr_status := ''accepted''\<rparr> else r)
                                        (connection_requests s),
                                  connections :=
                                    connections s @ [(u_id sender, u_id receiver)]\<rparr>,
                                Some (request\<lparr>cr_status := ''accepted''\<rparr>)))))"

definition reject_connection_request ::
  "db \<Rightarrow> int \<Rightarrow> db \<times> ConnectionRequest option" where
  "reject_connection_request s request_id =
     (case find (\<lambda>r. cr_id r = request_id) (connection_requests s) of
        None \<Rightarrow> (s, None)
      | Some request \<Rightarrow>
          if cr_status request \<noteq> ''pending'' then (s, None)
          else (s\<lparr>connection_requests :=
                    map (\<lambda>r. if cr_id r = request_id
                              then r\<lparr>cr_status := ''rejected''\<rparr> else r)
                        (connection_requests s)\<rparr>,
                Some (request\<lparr>cr_status := ''rejected''\<rparr>)))"

definition get_pending_requests :: "db \<Rightarrow> int \<Rightarrow> ConnectionRequest list" where
  "get_pending_requests s user_id =
     filter (\<lambda>r. cr_receiver_id r = user_id \<and> cr_status r = ''pending'') (connection_requests s)"

section \<open>Content service (app/services/post_service.py)\<close>

text \<open>
  \<open>order_by(created_at.desc()).offset(skip).limit(limit)\<close>: newest first, rows with equal
  keys in table order.
\<close>

definition newest_first :: "Post list \<Rightarrow> Post list" where
  "newest_first ps = sort_key (\<lambda>p. - p_created_at p) ps"

definition get_user_posts :: "db \<Rightarrow> int \<Rightarrow> nat \<Rightarrow> nat \<Rightarrow> Post list" where
  "get_user_posts s user_id skip limit =
     take limit (drop skip (newest_first (filter (\<lambda>p. p_author_id p = user_id) (posts s))))"

definition get_feed_posts :: "db \<Rightarrow> int \<Rightarrow> nat \<Rightarrow> nat \<Rightarrow> Post list" where
  "get_feed_posts s user_id skip limit =
     (case find (\<lambda>u. u_id u = user_id) (users s) of
        None \<Rightarrow> []
      | Some user \<Rightarrow>
          (let connection_ids = map u_id (user_connections s user) @ [user_id]
           in take limit (drop skip
                (newest_first (filter (\<lambda>p. p_author_id p \<in> set connection_ids) (posts s))))))"

definition liked_by :: "int \<Rightarrow> int \<Rightarrow> Like \<Rightarrow> bool" where
  "liked_by post_id user_id l \<longleftrightarrow> l_post_id l = post_id \<and> l_user_id l = user_id"

definition like_post :: "db \<Rightarrow> int \<Rightarrow> int \<Rightarrow> int \<Rightarrow> db \<times> Like" where
  "like_post s post_id user_id now =
     (case find (liked_by post_id user_id) (likes s) of
        Some existing_like \<Rightarrow> (s, existing_like)
      | None \<Rightarrow>
          (let like = \<lparr>l_id = next_id (map l_id (likes s)),
                       l_post_id = post_id,
                       l_user_id = user_id,
                       l_created_at = now\<rparr>
           in (s\<lparr>likes := likes s @ [like]\<rparr>, like)))"

definition unlike_post :: "db \<Rightarrow> int \<Rightarrow> int \<Rightarrow> db \<times> bool" where
  "unlike_post s post_id user_id =
     (case find (liked_by post_id user_id) (likes s) of
        Some like \<Rightarrow> (s\<lparr>likes := filter (\<lambda>l. l_id l \<noteq> l_id like) (likes s)\<rparr>, True)
      | None \<Rightarrow> (s, False))"

definition has_liked_post :: "db \<Rightarrow> int \<Rightarrow> int \<Rightarrow> bool" where
  "has_liked_post s post_id user_id \<longleftrightarrow> find (liked_by post_id user_id) (likes s) \<noteq> None"

definition get_post_likes_count :: "db \<Rightarrow> int \<Rightarrow> nat" where
  "get_post_likes_count s post_id = length (filter (\<lambda>l. l_post_id l = post_id) (likes s))"

section \<open>Example stores\<close>

definition ex_db :: db where
  "ex_db = \<lparr>users = [], connections = [], connection_requests = [], posts = [],
             likes = [], messages = []\<rparr>"

definition ex_msg :: "int \<Rightarrow> int \<Rightarrow> int \<Rightarrow> int \<Rightarrow> Message" where
  "ex_msg i a b t = \<lparr>msg_id = i, msg_sender_id = a, msg_receiver_id = b,
                     msg_content = ''hello'', msg_read = False, msg_created_at = t\<rparr>"

definition ex_chat :: db where
  "ex_chat = ex_db\<lparr>messages := [ex_msg 1 1 2 20, ex_msg 2 2 1 10, ex_msg 3 3 1 5,
                                  ex_msg 4 1 2 30]\<rparr>"

definition ex_user :: "int \<Rightarrow> string \<Rightarrow> string \<Rightarrow> User" where
  "ex_user i email username =
     \<lparr>u_id = i, u_email = Some email, u_username = Some username,
      u_hashed_password = Some ''terces'', u_full_name = Some ''A User'',
      u_headline = None, u_bio = None,
      u_profile_image = Some ''/static/default_profile.png'',
      u_location = None, u_created_at = Some 1\<rparr>"

definition ex_two :: db where
  "ex_two = ex_db\<lparr>users := [ex_user 1 ''ann@example.org'' ''ann'',
                              ex_user 2 ''bob@example.org'' ''bob'']\<rparr>"

definition ex_request :: "string \<Rightarrow> ConnectionRequest" where
  "ex_request status = \<lparr>cr_id = 1, cr_sender_id = 1, cr_receiver_id = 2,
                         cr_status = status, cr_created_at = 5\<rparr>"

definition ex_pending :: db where
  "ex_pending = ex_two\<lparr>connection_requests := [ex_request ''pending'']\<rparr>"

definition ex_accepted :: db where
  "ex_accepted = ex_two\<lparr>connection_requests := [ex_request ''accepted''],
                        connections := [(1, 2)]\<rparr>"

definition ex_liked :: db where
  "ex_liked = ex_db\<lparr>likes := [\<lparr>l_id = 1, l_post_id = 7, l_user_id = 3,
                                   l_created_at = 9\<rparr>]\<rparr>"

definition ex_post :: "int \<Rightarrow> int \<Rightarrow> int \<Rightarrow> Post" where
  "ex_post i author t = \<lparr>p_id = i, p_author_id = author, p_content = ''news'',
                         p_image_url = None, p_created_at = t\<rparr>"

definition ex_feed :: db where
  "ex_feed = ex_accepted\<lparr>posts := [ex_post 1 2 10, ex_post 2 1 20, ex_post 3 3 30,
                                    ex_post 4 2 40]\<rparr>"




section \<open>Messaging: marking as read\<close>

lemma unread_after_mark:
  "length (filter (\<lambda>m. msg_receiver_id m = B \<and> \<not> msg_read m)
             (map (\<lambda>m. if unread_from A B m then m\<lparr>msg_read := True\<rparr> else m) ms))
     + length (filter (unread_from A B) ms)
   = length (filter (\<lambda>m. msg_receiver_id m = B \<and> \<not> msg_read m) ms)"
  by (induction ms) (auto simp: unread_from_def)

lemma none_unread_after_mark:
  "filter (unread_from A B)
     (map (\<lambda>m. if unread_from A B m then m\<lparr>msg_read := True\<rparr> else m) ms) = []"
  by (induction ms) (auto simp: unread_from_def)

lemma messages_send_message:
  "messages (fst (send_message s A B c t)) = messages s @ [snd (send_message s A B c t)]"
  by (simp add: send_message_def Let_def)

lemma sent_is_unread:
  "unread_from A B (snd (send_message s A B c t))"
  by (simp add: send_message_def Let_def unread_from_def)

text \<open>
  Claim C7. \<open>mark_messages_as_read(B, A)\<close> returns the number of messages from \<open>A\<close> to
  \<open>B\<close> that were unread, sets \<open>read\<close> on exactly those rows and changes nothing else;
  afterwards none of them is unread and \<open>get_unread_messages_count(B)\<close> has dropped by the
  number returned. After three more messages from \<open>A\<close> to \<open>B\<close> the call counts three
  more than were unread before (three on a store with none).
\<close>

theorem mark_messages_as_read_counts:
  "snd (mark_messages_as_read s B A)
     = length (filter (\<lambda>m. msg_sender_id m = A \<and> msg_receiver_id m = B \<and> \<not> msg_read m)
                      (messages s))
   \<and> messages (fst (mark_messages_as_read s B A))
       = map (\<lambda>m. if msg_sender_id m = A \<and> msg_receiver_id m = B \<and> \<not> msg_read m
                   then m\<lparr>msg_read := True\<rparr> else m) (messages s)
   \<and> fst (mark_messages_as_read s B A)
       = s\<lparr>messages := messages (fst (mark_messages_as_read s B A))\<rparr>
   \<and> filter (\<lambda>m. msg_sender_id m = A \<and> msg_receiver_id m = B \<and> \<not> msg_read m)
        (messages (fst (mark_messages_as_read s B A))) = []
   \<and> get_unread_messages_count (fst (mark_messages_as_read s B A)) B
        + snd (mark_messages_as_read s B A) = get_unread_messages_count s B
   \<and> snd (mark_messages_as_read
        (fst (send_message (fst (send_message (fst (send_message s A B c1 t1)) A B c2 t2))
                A B c3 t3)) B A)
       = length (filter (\<lambda>m. msg_sender_id m = A \<and> msg_receiver_id m = B \<and> \<not> msg_read m)
                        (messages s)) + 3"
proof -
  have u: "unread_from A B
             = (\<lambda>m. msg_sender_id m = A \<and> msg_receiver_id m = B \<and> \<not> msg_read m)"
    by (simp add: unread_from_def fun_eq_iff)
  have 1: "snd (mark_messages_as_read s B A) = length (filter (unread_from A B) (messages s))"
    by (simp add: mark_messages_as_read_def Let_def)
  have 2: "messages (fst (mark_messages_as_read s B A))
       = map (\<lambda>m. if unread_from A B m then m\<lparr>msg_read := True\<rparr> else m) (messages s)"
    by (simp add: mark_messages_as_read_def Let_def)
  have 3: "fst (mark_messages_as_read s B A)
       = s\<lparr>messages := messages (fst (mark_messages_as_read s B A))\<rparr>"
    by (simp add: mark_messages_as_read_def Let_def)
  have 4: "filter (unread_from A B) (messages (fst (mark_messages_as_read s B A))) = []"
    unfolding 2 by (rule none_unread_after_mark)
  have 5: "get_unread_messages_count (fst (mark_messages_as_read s B A)) B
        + snd (mark_messages_as_read s B A) = get_unread_messages_count s B"
    unfolding 1 2 get_unread_messages_count_def using unread_after_mark [of B A "messages s"]
    by simp
  have 6: "snd (mark_messages_as_read
             (fst (send_message (fst (send_message (fst (send_message s A B c1 t1)) A B c2 t2))
                A B c3 t3)) B A)
           = length (filter (unread_from A B) (messages s)) + 3"
    by (simp add: mark_messages_as_read_def Let_def messages_send_message sent_is_unread)
  show ?thesis using 1 2 3 4 5 6 unfolding u by blast
qed

theorem mark_messages_as_read_counts_witness:
  "snd (mark_messages_as_read
     (fst (send_message (fst (send_message (fst (send_message ex_db 1 2 ''a'' 10))
        1 2 ''b'' 11)) 1 2 ''c'' 12)) 2 1) = 3
   \<and> snd (mark_messages_as_read ex_chat 1 2) = 1
   \<and> get_unread_messages_count ex_chat 1 = 2
   \<and> get_unread_messages_count (fst (mark_messages_as_read ex_chat 1 2)) 1 = 1"
  using mark_messages_as_read_counts [of ex_db 2 1 "''a''" 10 "''b''" 11 "''c''" 12]
    mark_messages_as_read_counts [of ex_chat 1 2]
  by (simp add: ex_db_def ex_chat_def ex_msg_def get_unread_messages_count_def)

section \<open>Messaging: conversations\<close>

lemma sorted3_unique:
  assumes m: "mset xs = {#m1, m2, m3#}"
    and lt: "f m1 < f m2" "f m2 < f m3"
  shows "sort_key f xs = [m1, m2, m3]"
proof (rule properties_for_sort_key)
  show "mset [m1, m2, m3] = mset xs" using m by simp
  show "sorted (map f [m1, m2, m3])" using lt by (auto simp: less_imp_le dest: less_trans)
  fix k assume k: "k \<in> set [m1, m2, m3]"
  have "mset (filter (\<lambda>x. f k = f x) xs) = mset (filter (\<lambda>x. f k = f x) [m1, m2, m3])"
    using m by (simp only: mset_filter mset.simps)
  moreover have "\<exists>y. filter (\<lambda>x. f k = f x) [m1, m2, m3] = [y]"
    using k lt by auto
  ultimately show "filter (\<lambda>x. f k = f x) [m1, m2, m3] = filter (\<lambda>x. f k = f x) xs"
    by (metis mset_single_iff_right mset.simps(1,2))
qed

text \<open>
  Claim C3. \<open>get_conversation(A, B, limit)\<close> is the first \<open>limit\<close> rows of the whole
  conversation, and the whole conversation holds exactly the messages whose sender and
  receiver are \<open>A\<close> and \<open>B\<close> in either direction, oldest first; so it has
  \<open>min limit n\<close> rows when \<open>n\<close> messages match. The default limit is 50. Three such
  messages created at times \<open>t1 < t2 < t3\<close> come back in that order.
\<close>

theorem get_conversation_oldest_first:
  "mset (get_conversation s A B (length (messages s)))
     = mset (filter (\<lambda>m. (msg_sender_id m = A \<and> msg_receiver_id m = B)
                          \<or> (msg_sender_id m = B \<and> msg_receiver_id m = A)) (messages s))
   \<and> sorted (map msg_created_at (get_conversation s A B limit))
   \<and> get_conversation s A B limit = take limit (get_conversation s A B (length (messages s)))
   \<and> length (get_conversation s A B limit)
       = min limit (length (filter (\<lambda>m. (msg_sender_id m = A \<and> msg_receiver_id m = B)
                          \<or> (msg_sender_id m = B \<and> msg_receiver_id m = A)) (messages s)))
   \<and> get_conversation_default s A B = take 50 (get_conversation s A B (length (messages s)))
   \<and> (mset (filter (\<lambda>m. (msg_sender_id m = A \<and> msg_receiver_id m = B)
                          \<or> (msg_sender_id m = B \<and> msg_receiver_id m = A)) (messages s))
        = {#m1, m2, m3#}
      \<and> msg_created_at m1 < msg_created_at m2 \<and> msg_created_at m2 < msg_created_at m3
      \<longrightarrow> get_conversation_default s A B = [m1, m2, m3])"
proof -
  let ?xs = "filter (between A B) (messages s)"
  have len: "length ?xs \<le> length (messages s)" by simp
  have full: "get_conversation s A B (length (messages s)) = sort_key msg_created_at ?xs"
    using len by (simp add: get_conversation_def)
  have 1: "mset (get_conversation s A B (length (messages s))) = mset ?xs"
    by (simp add: full)
  have 2: "sorted (map msg_created_at (get_conversation s A B limit))"
  proof -
    have "sorted (take limit (map msg_created_at (sort_key msg_created_at ?xs)))"
      by (rule sorted_wrt_take) simp
    then show ?thesis by (simp add: get_conversation_def take_map)
  qed
  have 3: "get_conversation s A B limit
             = take limit (get_conversation s A B (length (messages s)))"
    by (simp add: full) (simp add: get_conversation_def)
  have 4: "length (get_conversation s A B limit) = min limit (length ?xs)"
    by (simp add: get_conversation_def min.commute)
  have 5: "get_conversation_default s A B
             = take 50 (get_conversation s A B (length (messages s)))"
    by (simp add: full) (simp add: get_conversation_def get_conversation_default_def)
  have 6: "get_conversation_default s A B = [m1, m2, m3]"
    if "mset ?xs = {#m1, m2, m3#}" "msg_created_at m1 < msg_created_at m2"
       "msg_created_at m2 < msg_created_at m3"
    using sorted3_unique [OF that] by (simp add: get_conversation_def get_conversation_default_def)
  have b: "between A B = (\<lambda>m. (msg_sender_id m = A \<and> msg_receiver_id m = B)
                          \<or> (msg_sender_id m = B \<and> msg_receiver_id m = A))"
    by (simp add: between_def fun_eq_iff)
  show ?thesis using 1 2 3 4 5 6 unfolding b by blast
qed

theorem get_conversation_oldest_first_witness:
  "get_conversation_default ex_chat 1 2 = [ex_msg 2 2 1 10, ex_msg 1 1 2 20, ex_msg 4 1 2 30]
   \<and> get_conversation ex_chat 2 1 2 = [ex_msg 2 2 1 10, ex_msg 1 1 2 20]"
  using get_conversation_oldest_first
          [of ex_chat 1 2 2 "ex_msg 2 2 1 10" "ex_msg 1 1 2 20" "ex_msg 4 1 2 30"]
    get_conversation_oldest_first [of ex_chat 2 1 2]
  by (simp add: ex_db_def ex_chat_def ex_msg_def get_conversation_def between_def
      get_conversation_default_def add_mset_commute)

section \<open>Content: likes\<close>

lemma find_None_filter: "find P xs = None \<longleftrightarrow> filter P xs = []"
  by (induction xs) auto

lemma find_Some_filter: "find P xs = Some x \<Longrightarrow> filter P xs \<noteq> []"
  by (induction xs) (auto split: if_splits)

lemma find_append_new: "find P xs = None \<Longrightarrow> find P (xs @ ys) = find P ys"
  by (induction xs) (auto split: if_splits)

text \<open>
  Claim C2, as stated, fails on a store where the user already likes the post: two more
  calls of \<open>like_post\<close> leave the count where it was, not one above it. The store
  \<open>ex_liked\<close> is what one earlier \<open>like_post\<close> leaves.
\<close>

theorem like_post_twice_counterexample:
  "ex_liked = fst (like_post ex_db 7 3 9)
   \<and> get_post_likes_count (fst (like_post (fst (like_post ex_liked 7 3 10)) 7 3 11)) 7
       \<noteq> get_post_likes_count ex_liked 7 + 1"
  by (simp add: ex_liked_def ex_db_def like_post_def liked_by_def get_post_likes_count_def
      next_id_def Let_def)

text \<open>
  Claim C2, amended. When no Like row for \<open>(p, u)\<close> exists before the first call, two
  calls of \<open>like_post(p, u)\<close> leave exactly one such row, the second call changes nothing
  and returns the row of the first, and \<open>get_post_likes_count(p)\<close> is larger by exactly 1
  than before the first call. When a row exists already, \<open>like_post\<close> changes nothing.
  \<open>unlike_post(p, u)\<close> with no such row returns false and leaves the store unchanged.
\<close>

theorem like_post_idempotent:
  "(filter (\<lambda>l. l_post_id l = p \<and> l_user_id l = u) (likes s) = [] \<longrightarrow>
      length (filter (\<lambda>l. l_post_id l = p \<and> l_user_id l = u)
                (likes (fst (like_post (fst (like_post s p u t1)) p u t2)))) = 1
      \<and> like_post (fst (like_post s p u t1)) p u t2 = like_post s p u t1
      \<and> get_post_likes_count (fst (like_post (fst (like_post s p u t1)) p u t2)) p
          = get_post_likes_count s p + 1
      \<and> unlike_post s p u = (s, False))
   \<and> (filter (\<lambda>l. l_post_id l = p \<and> l_user_id l = u) (likes s) \<noteq> [] \<longrightarrow>
        fst (like_post s p u t1) = s)"
proof -
  have l: "liked_by p u = (\<lambda>l. l_post_id l = p \<and> l_user_id l = u)"
    by (simp add: liked_by_def fun_eq_iff)
  have absent: "length (filter (liked_by p u)
                  (likes (fst (like_post (fst (like_post s p u t1)) p u t2)))) = 1
      \<and> like_post (fst (like_post s p u t1)) p u t2 = like_post s p u t1
      \<and> get_post_likes_count (fst (like_post (fst (like_post s p u t1)) p u t2)) p
          = get_post_likes_count s p + 1
      \<and> unlike_post s p u = (s, False)"
    if none: "filter (liked_by p u) (likes s) = []"
  proof -
    have f: "find (liked_by p u) (likes s) = None"
      using none by (simp add: find_None_filter)
    define like where "like = \<lparr>l_id = next_id (map l_id (likes s)), l_post_id = p,
                                l_user_id = u, l_created_at = t1\<rparr>"
    have first: "like_post s p u t1 = (s\<lparr>likes := likes s @ [like]\<rparr>, like)"
      by (simp add: like_post_def f like_def Let_def)
    have is_like: "liked_by p u like" by (simp add: like_def liked_by_def)
    have f2: "find (liked_by p u) (likes s @ [like]) = Some like"
      using f is_like by (simp add: find_append_new)
    have second: "like_post (s\<lparr>likes := likes s @ [like]\<rparr>) p u t2
                    = (s\<lparr>likes := likes s @ [like]\<rparr>, like)"
      by (simp add: like_post_def f2)
    have cnt: "get_post_likes_count (s\<lparr>likes := likes s @ [like]\<rparr>) p
                 = get_post_likes_count s p + 1"
      by (simp add: get_post_likes_count_def like_def)
    show ?thesis
      using none is_like cnt by (simp add: first second unlike_post_def f)
  qed
  have present: "fst (like_post s p u t1) = s" if "filter (liked_by p u) (likes s) \<noteq> []"
  proof -
    from that obtain x where "find (liked_by p u) (likes s) = Some x"
      by (cases "find (liked_by p u) (likes s)") (auto simp: find_None_filter)
    then show ?thesis by (simp add: like_post_def)
  qed
  show ?thesis using absent present unfolding l by blast
qed

theorem like_post_idempotent_witness:
  "length (likes (fst (like_post (fst (like_post ex_db 7 3 9)) 7 3 10))) = 1
   \<and> get_post_likes_count (fst (like_post (fst (like_post ex_db 7 3 9)) 7 3 10)) 7 = 1
   \<and> unlike_post ex_db 7 3 = (ex_db, False)
   \<and> fst (like_post ex_liked 7 3 10) = ex_liked"
  using like_post_idempotent [of 7 3 ex_db 9 10] like_post_idempotent [of 7 3 ex_liked 10]
  by (simp add: ex_db_def ex_liked_def get_post_likes_count_def like_post_def liked_by_def
      next_id_def Let_def)

section \<open>Users: creation\<close>

lemma fold_max_ge: "(y::int) \<le> fold max xs y"
  by (induction xs arbitrary: y) (auto intro: order_trans [OF max.cobounded2])

lemma fold_max_mem: "x \<in> set xs \<Longrightarrow> (x::int) \<le> fold max xs y"
proof (induction xs arbitrary: y)
  case Nil
  then show ?case by simp
next
  case (Cons a xs)
  show ?case
  proof (cases "x = a")
    case True
    have "a \<le> max a y" by simp
    also have "\<dots> \<le> fold max xs (max a y)" by (rule fold_max_ge)
    finally show ?thesis using True by simp
  next
    case False
    with Cons show ?thesis by simp
  qed
qed

lemma next_id_greater: "x \<in> set ids \<Longrightarrow> x < next_id ids"
proof (cases ids)
  case Nil
  assume "x \<in> set ids"
  with Nil show ?thesis by simp
next
  case (Cons a as)
  assume "x \<in> set ids"
  with Cons have "x = a \<or> x \<in> set as" by simp
  then have "x \<le> fold max as a"
    using fold_max_ge [of a as] fold_max_mem [of x as a] by blast
  with Cons show ?thesis by (simp add: next_id_def)
qed

lemma next_id_fresh: "next_id ids \<notin> set ids"
  using next_id_greater [of "next_id ids" ids] by blast



text \<open>
  Claim C9, as stated, fails: on a taken email \<open>create_user\<close> ends with the store's
  \<open>IntegrityError\<close>, which nothing catches or translates; it is not a \<open>ConflictError\<close>.
\<close>

theorem create_user_conflict_counterexample:
  "create_user rev ex_two ''ann@example.org'' ''carol'' ''secret'' ''Carol'' 7
     = Inl IntegrityError
   \<and> create_user rev ex_two ''ann@example.org'' ''carol'' ''secret'' ''Carol'' 7
     \<noteq> Inl ConflictError"
  by (simp add: create_user_def ex_two_def ex_db_def ex_user_def Let_def)

text \<open>
  Claim C9, amended. \<open>create_user\<close> fails with the store's \<open>IntegrityError\<close>, passed on
  as it is (never a \<open>ConflictError\<close>), when a user already has the given email or the
  given username; otherwise it appends one user carrying the given email, username and
  full name and the hash of the password, and returns that user.
\<close>

theorem create_user_unique:
  "((\<exists>u \<in> set (users s). u_email u = Some email \<or> u_username u = Some username) \<longrightarrow>
      create_user hash s email username password full_name now = Inl IntegrityError)
   \<and> (\<not> (\<exists>u \<in> set (users s). u_email u = Some email \<or> u_username u = Some username) \<longrightarrow>
      (\<exists>u. create_user hash s email username password full_name now
             = Inr (s\<lparr>users := users s @ [u]\<rparr>, u)
           \<and> u_email u = Some email \<and> u_username u = Some username
           \<and> u_hashed_password u = Some (hash password)
           \<and> u_full_name u = Some full_name
           \<and> u_id u \<notin> u_id ` set (users s)))
   \<and> create_user hash s email username password full_name now \<noteq> Inl ConflictError"
proof -
  have fresh: "next_id (map u_id (users s)) \<notin> u_id ` set (users s)"
    using next_id_fresh [of "map u_id (users s)"] by simp
  show ?thesis
    using fresh by (auto simp: create_user_def Let_def list_ex_iff)
qed

theorem create_user_unique_witness:
  "create_user rev ex_two ''bob@example.org'' ''carol'' ''secret'' ''Carol'' 7
     = Inl IntegrityError
   \<and> (\<exists>u. create_user rev ex_two ''carol@example.org'' ''carol'' ''secret'' ''Carol'' 7
            = Inr (ex_two\<lparr>users := users ex_two @ [u]\<rparr>, u)
          \<and> u_hashed_password u = Some ''terces'' \<and> u_id u = 3)"
  using create_user_unique
          [of ex_two "''bob@example.org''" "''carol''" rev "''secret''" "''Carol''" 7]
    create_user_unique
          [of ex_two "''carol@example.org''" "''carol''" rev "''secret''" "''Carol''" 7]
  by (simp add: create_user_def ex_two_def ex_db_def ex_user_def Let_def next_id_def)

section \<open>Connection requests: sending\<close>

lemma user_connections_ids:
  "get_user_by_id s S = Some sender \<Longrightarrow>
   list_ex (\<lambda>conn. u_id conn = R) (user_connections s sender)
     \<longleftrightarrow> R \<in> u_id ` set (get_user_connections s S)"
  by (auto simp: get_user_connections_def list_ex_iff)

text \<open>
  Claim C10. With no pending request from the sender to the receiver and no user with the
  sender's id, \<open>send_connection_request\<close> raises (\<open>AttributeError\<close> on
  \<open>sender.connections\<close>) instead of returning; it returns exactly when such a pending
  request exists or the sender exists.
\<close>

theorem send_connection_request_needs_sender:
  "(get_user_by_id s S = None
      \<and> filter (\<lambda>r. cr_sender_id r = S \<and> cr_receiver_id r = R \<and> cr_status r = ''pending'')
                (connection_requests s) = []
     \<longrightarrow> send_connection_request s S R now = Inl AttributeError)
   \<and> (get_user_by_id s S \<noteq> None \<longrightarrow> (\<exists>res. send_connection_request s S R now = Inr res))
   \<and> ((\<exists>res. send_connection_request s S R now = Inr res) \<longleftrightarrow>
        get_user_by_id s S \<noteq> None
        \<or> filter (\<lambda>r. cr_sender_id r = S \<and> cr_receiver_id r = R \<and> cr_status r = ''pending'')
                  (connection_requests s) \<noteq> [])"
proof -
  have p: "is_pending S R
             = (\<lambda>r. cr_sender_id r = S \<and> cr_receiver_id r = R \<and> cr_status r = ''pending'')"
    by (simp add: is_pending_def fun_eq_iff)
  have "(get_user_by_id s S = None \<and> find (is_pending S R) (connection_requests s) = None
     \<longrightarrow> send_connection_request s S R now = Inl AttributeError)
   \<and> (get_user_by_id s S \<noteq> None \<longrightarrow> (\<exists>res. send_connection_request s S R now = Inr res))
   \<and> ((\<exists>res. send_connection_request s S R now = Inr res) \<longleftrightarrow>
        get_user_by_id s S \<noteq> None \<or> find (is_pending S R) (connection_requests s) \<noteq> None)"
    by (cases "find (is_pending S R) (connection_requests s)";
        cases "get_user_by_id s S")
       (auto simp: send_connection_request_def Let_def)
  then show ?thesis unfolding find_None_filter p .
qed

theorem send_connection_request_needs_sender_witness:
  "send_connection_request ex_two 9 2 6 = Inl AttributeError
   \<and> (\<exists>res. send_connection_request ex_two 1 2 6 = Inr res)"
  using send_connection_request_needs_sender [of ex_two 9 2 6]
    send_connection_request_needs_sender [of ex_two 1 2 6]
  by (simp add: ex_two_def ex_db_def ex_user_def get_user_by_id_def)

text \<open>
  What \<open>send_connection_request\<close> does for a sender that exists, in terms of the
  collection it reads: a pending request from \<open>S\<close> to \<open>R\<close> is returned as it is and
  nothing is inserted; with none pending and \<open>R\<close> among \<open>get_user_connections(S)\<close>, the
  result is \<open>None\<close> and nothing is created; otherwise one request from \<open>S\<close> to \<open>R\<close>
  with status pending and a fresh key is appended and returned. A second call returns what
  the first did and changes nothing more.
\<close>

lemma send_connection_request_branches:
  "(find (\<lambda>r. cr_sender_id r = S \<and> cr_receiver_id r = R \<and> cr_status r = ''pending'')
         (connection_requests s) = Some r
      \<longrightarrow> send_connection_request s S R now = Inr (s, Some r))
   \<and> (get_user_by_id s S \<noteq> None
       \<and> filter (\<lambda>r. cr_sender_id r = S \<and> cr_receiver_id r = R \<and> cr_status r = ''pending'')
                 (connection_requests s) = []
       \<and> R \<in> u_id ` set (get_user_connections s S)
      \<longrightarrow> send_connection_request s S R now = Inr (s, None))
   \<and> (get_user_by_id s S \<noteq> None
       \<and> filter (\<lambda>r. cr_sender_id r = S \<and> cr_receiver_id r = R \<and> cr_status r = ''pending'')
                 (connection_requests s) = []
       \<and> R \<notin> u_id ` set (get_user_connections s S)
      \<longrightarrow> (\<exists>new. send_connection_request s S R now
                    = Inr (s\<lparr>connection_requests := connection_requests s @ [new]\<rparr>, Some new)
                 \<and> cr_sender_id new = S \<and> cr_receiver_id new = R
                 \<and> cr_status new = ''pending''
                 \<and> cr_id new \<notin> cr_id ` set (connection_requests s)))
   \<and> (get_user_by_id s S \<noteq> None
      \<longrightarrow> (\<exists>s' res. send_connection_request s S R now = Inr (s', res)
                   \<and> send_connection_request s' S R later = Inr (s', res)))"
proof -
  let ?P = "is_pending S R"
  have p: "?P = (\<lambda>r. cr_sender_id r = S \<and> cr_receiver_id r = R \<and> cr_status r = ''pending'')"
    by (simp add: is_pending_def fun_eq_iff)
  have 1: "send_connection_request s S R now = Inr (s, Some r)"
    if "find ?P (connection_requests s) = Some r"
    using that by (simp add: send_connection_request_def)
  have 2: "send_connection_request s S R now = Inr (s, None)"
    if "get_user_by_id s S \<noteq> None" "filter ?P (connection_requests s) = []"
       "R \<in> u_id ` set (get_user_connections s S)"
    using that
    by (auto simp: send_connection_request_def find_None_filter [symmetric]
          user_connections_ids)
  define new where "new = \<lparr>cr_id = next_id (map cr_id (connection_requests s)),
      cr_sender_id = S, cr_receiver_id = R, cr_status = ''pending'', cr_created_at = now\<rparr>"
  have fresh: "cr_id new \<notin> cr_id ` set (connection_requests s)"
    using next_id_fresh [of "map cr_id (connection_requests s)"] by (simp add: new_def)
  have 3: "send_connection_request s S R now
             = Inr (s\<lparr>connection_requests := connection_requests s @ [new]\<rparr>, Some new)"
    if "get_user_by_id s S \<noteq> None" "filter ?P (connection_requests s) = []"
       "R \<notin> u_id ` set (get_user_connections s S)"
    using that
    by (auto simp: send_connection_request_def find_None_filter [symmetric]
          user_connections_ids Let_def new_def)
  have new_pending: "?P new" by (simp add: new_def is_pending_def)
  have 4: "\<exists>s' res. send_connection_request s S R now = Inr (s', res)
                   \<and> send_connection_request s' S R later = Inr (s', res)"
    if ex: "get_user_by_id s S \<noteq> None"
  proof (cases "find ?P (connection_requests s)")
    case (Some r)
    then show ?thesis by (simp add: send_connection_request_def)
  next
    case None
    then have none: "filter ?P (connection_requests s) = []" by (simp add: find_None_filter)
    show ?thesis
    proof (cases "R \<in> u_id ` set (get_user_connections s S)")
      case True
      have "send_connection_request s S R later = Inr (s, None)"
        using ex none True
        by (auto simp: send_connection_request_def find_None_filter [symmetric]
              user_connections_ids)
      with 2 [OF ex none True] show ?thesis by blast
    next
      case False
      have "find ?P (connection_requests s @ [new]) = Some new"
        using None new_pending by (simp add: find_append_new)
      then have "send_connection_request
                   (s\<lparr>connection_requests := connection_requests s @ [new]\<rparr>) S R later
                 = Inr (s\<lparr>connection_requests := connection_requests s @ [new]\<rparr>, Some new)"
        by (simp add: send_connection_request_def)
      with 3 [OF ex none False] show ?thesis by blast
    qed
  qed
  have new_fields: "cr_sender_id new = S \<and> cr_receiver_id new = R \<and> cr_status new = ''pending''"
    by (simp add: new_def)
  show ?thesis using 1 2 3 4 fresh new_fields unfolding p by blast
qed

text \<open>
  Claim C4 fails on the code, by the defect of claim C1. After the request of user 1 to
  user 2 is accepted the two users are connected; \<open>send_connection_request(1, 2)\<close> then
  returns \<open>None\<close> and creates nothing, but \<open>send_connection_request(2, 1)\<close> finds the
  collection of user 2 empty and inserts a new pending request.
\<close>

theorem send_connection_request_one_sided:
  "accept_connection_request ex_pending 1 = Inr (ex_accepted, Some (ex_request ''accepted''))
   \<and> send_connection_request ex_accepted 1 2 6 = Inr (ex_accepted, None)
   \<and> send_connection_request ex_accepted 2 1 6
       = Inr (ex_accepted\<lparr>connection_requests :=
                [ex_request ''accepted'',
                 \<lparr>cr_id = 2, cr_sender_id = 2, cr_receiver_id = 1,
                  cr_status = ''pending'', cr_created_at = 6\<rparr>]\<rparr>,
              Some \<lparr>cr_id = 2, cr_sender_id = 2, cr_receiver_id = 1,
                    cr_status = ''pending'', cr_created_at = 6\<rparr>)"
proof -
  have acc: "accept_connection_request ex_pending 1
               = Inr (ex_accepted, Some (ex_request ''accepted''))"
    by (simp add: accept_connection_request_def ex_pending_def ex_accepted_def ex_two_def
        ex_db_def ex_user_def ex_request_def get_user_by_id_def)
  have fwd: "send_connection_request ex_accepted 1 2 6 = Inr (ex_accepted, None)"
    by (simp add: send_connection_request_def is_pending_def ex_accepted_def ex_two_def
        ex_db_def ex_user_def ex_request_def get_user_by_id_def user_connections_def)
  have other_way: "send_connection_request ex_accepted 2 1 6
       = Inr (ex_accepted\<lparr>connection_requests :=
                [ex_request ''accepted'',
                 \<lparr>cr_id = 2, cr_sender_id = 2, cr_receiver_id = 1,
                  cr_status = ''pending'', cr_created_at = 6\<rparr>]\<rparr>,
              Some \<lparr>cr_id = 2, cr_sender_id = 2, cr_receiver_id = 1,
                    cr_status = ''pending'', cr_created_at = 6\<rparr>)"
    by (simp add: send_connection_request_def is_pending_def ex_accepted_def ex_two_def
        ex_db_def ex_user_def ex_request_def get_user_by_id_def user_connections_def
        next_id_def Let_def)
  show ?thesis using acc fwd other_way by simp
qed

section \<open>Connection requests: accepting and rejecting\<close>

lemma find_distinct_key:
  "distinct (map key xs) \<Longrightarrow> x \<in> set xs \<Longrightarrow> find (\<lambda>y. key y = key x) xs = Some x"
proof (induction xs)
  case Nil
  then show ?case by simp
next
  case (Cons a xs)
  show ?case
  proof (cases "key a = key x")
    case True
    with Cons.prems have "a = x" by (auto simp: image_iff)
    then show ?thesis by simp
  next
    case False
    with Cons show ?thesis by auto
  qed
qed

text \<open>
  Claim C5. In a table whose keys are distinct, a request whose status is accepted or
  rejected is terminal: \<open>accept_connection_request\<close> and \<open>reject_connection_request\<close> on
  its key return \<open>None\<close> and leave the whole store as it was, so the status stays and no
  association row is added.
\<close>

theorem accepted_rejected_terminal:
  "r \<in> set (connection_requests s) \<and> distinct (map cr_id (connection_requests s))
     \<and> (cr_status r = ''accepted'' \<or> cr_status r = ''rejected'')
   \<longrightarrow> accept_connection_request s (cr_id r) = Inr (s, None)
       \<and> reject_connection_request s (cr_id r) = (s, None)"
proof (intro impI, elim conjE)
  assume r: "r \<in> set (connection_requests s)"
    and d: "distinct (map cr_id (connection_requests s))"
    and st: "cr_status r = ''accepted'' \<or> cr_status r = ''rejected''"
  have f: "find (\<lambda>y. cr_id y = cr_id r) (connection_requests s) = Some r"
    using find_distinct_key [OF d r] .
  have np: "cr_status r \<noteq> ''pending''" using st by auto
  show "accept_connection_request s (cr_id r) = Inr (s, None)
       \<and> reject_connection_request s (cr_id r) = (s, None)"
    using f np by (simp add: accept_connection_request_def reject_connection_request_def)
qed

theorem accepted_rejected_terminal_witness:
  "accept_connection_request ex_accepted 1 = Inr (ex_accepted, None)
   \<and> reject_connection_request ex_accepted 1 = (ex_accepted, None)
   \<and> accept_connection_request (fst (reject_connection_request ex_pending 1)) 1
       = Inr (fst (reject_connection_request ex_pending 1), None)"
  using accepted_rejected_terminal [of "ex_request ''accepted''" ex_accepted]
    accepted_rejected_terminal
      [of "ex_request ''rejected''" "fst (reject_connection_request ex_pending 1)"]
  by (simp add: ex_accepted_def ex_pending_def ex_two_def ex_db_def ex_request_def
      reject_connection_request_def)

lemma get_user_by_id_key: "get_user_by_id s uid = Some u \<Longrightarrow> u_id u = uid"
  by (auto simp: get_user_by_id_def find_Some_iff)

lemma get_user_by_id_mem: "get_user_by_id s uid = Some u \<Longrightarrow> u \<in> set (users s)"
  by (auto simp: get_user_by_id_def find_Some_iff)

lemma accept_adds_one_row:
  "find (\<lambda>r. cr_id r = rid) (connection_requests s) = Some r \<and> cr_status r = ''pending''
   \<and> cr_sender_id r = A \<and> cr_receiver_id r = B \<and> A \<noteq> B
   \<and> accept_connection_request s rid = Inr (s', res)
   \<longrightarrow> res = Some (r\<lparr>cr_status := ''accepted''\<rparr>)
       \<and> connections s' = connections s @ [(A, B)]
       \<and> B \<in> u_id ` set (get_user_connections s' A)
       \<and> get_user_connections s' B = get_user_connections s B"
proof (intro impI, elim conjE)
  assume f: "find (\<lambda>r. cr_id r = rid) (connection_requests s) = Some r"
    and p: "cr_status r = ''pending''"
    and a: "cr_sender_id r = A" and b: "cr_receiver_id r = B" and ne: "A \<noteq> B"
    and acc: "accept_connection_request s rid = Inr (s', res)"
  from acc f p a b obtain sender receiver
    where sa: "get_user_by_id s A = Some sender" and sb: "get_user_by_id s B = Some receiver"
      and s': "s' = s\<lparr>connection_requests :=
                        map (\<lambda>r. if cr_id r = rid then r\<lparr>cr_status := ''accepted''\<rparr> else r)
                            (connection_requests s),
                      connections := connections s @ [(u_id sender, u_id receiver)]\<rparr>"
      and res: "res = Some (r\<lparr>cr_status := ''accepted''\<rparr>)"
    by (auto simp: accept_connection_request_def split: option.splits if_splits)
  have ida: "u_id sender = A" and idb: "u_id receiver = B"
    using sa sb by (auto dest: get_user_by_id_key)
  have conn: "connections s' = connections s @ [(A, B)]"
    by (simp add: s' ida idb)
  have users: "users s' = users s" by (simp add: s')
  have ga: "get_user_by_id s' A = Some sender" and gb: "get_user_by_id s' B = get_user_by_id s B"
    using sa by (simp_all add: get_user_by_id_def users)
  have "receiver \<in> set (user_connections s' sender)"
    using get_user_by_id_mem [OF sb] by (simp add: user_connections_def conn users ida idb)
  then have 1: "B \<in> u_id ` set (get_user_connections s' A)"
    using idb by (auto simp: get_user_connections_def ga)
  have 2: "get_user_connections s' B = get_user_connections s B"
    using ne sb idb by (simp add: get_user_connections_def gb user_connections_def conn users)
  show "res = Some (r\<lparr>cr_status := ''accepted''\<rparr>)
       \<and> connections s' = connections s @ [(A, B)]
       \<and> B \<in> u_id ` set (get_user_connections s' A)
       \<and> get_user_connections s' B = get_user_connections s B"
    using res conn 1 2 by simp
qed

text \<open>
  Claim C1 fails on the code. \<open>accept_connection_request\<close> appends the receiver to the
  sender's collection only, although its comment says the connection is added to both
  users. Accepting a pending request from \<open>A\<close> to another user \<open>B\<close> adds the one row
  \<open>(A, B)\<close> and leaves \<open>get_user_connections(B)\<close> as it was: after user 1's pending
  request to user 2 is accepted, user 2 is among the connections of user 1 and user 1 is
  not among those of user 2.
\<close>

theorem accept_connection_request_one_sided:
  "accept_connection_request ex_pending 1 = Inr (ex_accepted, Some (ex_request ''accepted''))
   \<and> map u_id (get_user_connections ex_accepted 1) = [2]
   \<and> get_user_connections ex_accepted 2 = []"
proof -
  have acc: "accept_connection_request ex_pending 1
               = Inr (ex_accepted, Some (ex_request ''accepted''))"
    by (simp add: accept_connection_request_def ex_pending_def ex_accepted_def ex_two_def
        ex_db_def ex_user_def ex_request_def get_user_by_id_def)
  have f: "find (\<lambda>r. cr_id r = 1) (connection_requests ex_pending)
             = Some (ex_request ''pending'')"
    by (simp add: ex_pending_def ex_request_def)
  have before: "get_user_connections ex_pending 2 = []"
    by (simp add: get_user_connections_def user_connections_def get_user_by_id_def
        ex_pending_def ex_two_def ex_db_def ex_user_def)
  from accept_adds_one_row
         [of 1 ex_pending "ex_request ''pending''" 1 2 ex_accepted
             "Some (ex_request ''accepted'')"] acc f
  have "get_user_connections ex_accepted 2 = get_user_connections ex_pending 2"
    by (simp add: ex_request_def)
  with before have after: "get_user_connections ex_accepted 2 = []" by simp
  have one: "map u_id (get_user_connections ex_accepted 1) = [2]"
    by (simp add: get_user_connections_def user_connections_def get_user_by_id_def
        ex_accepted_def ex_two_def ex_db_def ex_user_def)
  show ?thesis using acc one after by simp
qed

section \<open>Content: the feed\<close>

lemma newest_first_sorted:
  "sorted_wrt (\<lambda>p q. p_created_at q \<le> p_created_at p) (newest_first ps)"
proof -
  have "sorted (map (\<lambda>p. - p_created_at p) (newest_first ps))"
    by (simp add: newest_first_def)
  then show ?thesis by (simp add: sorted_map)
qed

text \<open>
  What \<open>get_feed_posts\<close> returns, in terms of the collection it reads. For a user \<open>A\<close>
  that exists, the whole feed (no skip, a limit no smaller than the table) holds exactly the
  posts whose author is \<open>A\<close> or is among \<open>get_user_connections(A)\<close>; every page is the
  window \<open>skip\<close>, \<open>limit\<close> of the whole feed and is ordered newest first. For an unknown
  user the feed is empty.
\<close>

lemma get_feed_posts_window:
  "(get_user_by_id s A = None \<longrightarrow> get_feed_posts s A skip limit = [])
   \<and> (get_user_by_id s A \<noteq> None \<longrightarrow>
        mset (get_feed_posts s A 0 (length (posts s)))
          = mset (filter (\<lambda>p. p_author_id p = A
                           \<or> p_author_id p \<in> u_id ` set (get_user_connections s A)) (posts s))
      \<and> get_feed_posts s A skip limit
          = take limit (drop skip (get_feed_posts s A 0 (length (posts s))))
      \<and> sorted_wrt (\<lambda>p q. p_created_at q \<le> p_created_at p) (get_feed_posts s A skip limit)
      \<and> (\<forall>p \<in> set (get_feed_posts s A skip limit).
            p \<in> set (posts s)
            \<and> (p_author_id p = A \<or> p_author_id p \<in> u_id ` set (get_user_connections s A)))
      \<and> (\<forall>p \<in> set (posts s).
            p_author_id p \<noteq> A \<and> p_author_id p \<notin> u_id ` set (get_user_connections s A)
            \<longrightarrow> p \<notin> set (get_feed_posts s A skip limit))
      \<and> (\<forall>p \<in> set (posts s).
            p_author_id p \<in> u_id ` set (get_user_connections s A)
            \<longrightarrow> p \<in> set (get_feed_posts s A 0 (length (posts s)))))"
proof -
  have none: "get_feed_posts s A skip limit = []" if "get_user_by_id s A = None"
    using that by (simp add: get_feed_posts_def get_user_by_id_def)
  have some: "mset (get_feed_posts s A 0 (length (posts s)))
          = mset (filter (\<lambda>p. p_author_id p = A
                           \<or> p_author_id p \<in> u_id ` set (get_user_connections s A)) (posts s))
      \<and> get_feed_posts s A skip limit
          = take limit (drop skip (get_feed_posts s A 0 (length (posts s))))
      \<and> sorted_wrt (\<lambda>p q. p_created_at q \<le> p_created_at p) (get_feed_posts s A skip limit)
      \<and> (\<forall>p \<in> set (get_feed_posts s A skip limit).
            p \<in> set (posts s)
            \<and> (p_author_id p = A \<or> p_author_id p \<in> u_id ` set (get_user_connections s A)))
      \<and> (\<forall>p \<in> set (posts s).
            p_author_id p \<noteq> A \<and> p_author_id p \<notin> u_id ` set (get_user_connections s A)
            \<longrightarrow> p \<notin> set (get_feed_posts s A skip limit))
      \<and> (\<forall>p \<in> set (posts s).
            p_author_id p \<in> u_id ` set (get_user_connections s A)
            \<longrightarrow> p \<in> set (get_feed_posts s A 0 (length (posts s))))"
    if "get_user_by_id s A \<noteq> None"
  proof -
    from that obtain user where u: "find (\<lambda>u. u_id u = A) (users s) = Some user"
      by (auto simp: get_user_by_id_def)
    let ?mine = "\<lambda>p. p_author_id p = A
                       \<or> p_author_id p \<in> u_id ` set (get_user_connections s A)"
    let ?all = "newest_first (filter ?mine (posts s))"
    have conn: "get_user_connections s A = user_connections s user"
      using u by (simp add: get_user_connections_def get_user_by_id_def)
    have sel: "(\<lambda>p. p_author_id p \<in> set (map u_id (user_connections s user) @ [A])) = ?mine"
      by (auto simp: conn fun_eq_iff)
    have page: "get_feed_posts s A k n = take n (drop k ?all)" for k n
      using u by (simp add: get_feed_posts_def Let_def sel del: set_append set_map)
    have len: "length ?all \<le> length (posts s)"
      by (simp add: newest_first_def)
    have whole: "get_feed_posts s A 0 (length (posts s)) = ?all"
      using len by (simp add: page)
    have 1: "mset (get_feed_posts s A 0 (length (posts s))) = mset (filter ?mine (posts s))"
      by (simp add: whole newest_first_def)
    have 2: "get_feed_posts s A skip limit
               = take limit (drop skip (get_feed_posts s A 0 (length (posts s))))"
      unfolding whole by (rule page)
    have 3: "sorted_wrt (\<lambda>p q. p_created_at q \<le> p_created_at p)
               (get_feed_posts s A skip limit)"
      unfolding page
      by (intro sorted_wrt_take sorted_wrt_drop newest_first_sorted)
    have sub: "set (get_feed_posts s A skip limit) \<subseteq> set ?all"
      unfolding page by (meson order_trans set_take_subset set_drop_subset)
    have all_set: "set ?all = {p \<in> set (posts s). ?mine p}"
      by (simp add: newest_first_def)
    have 4: "\<forall>p \<in> set (get_feed_posts s A skip limit). p \<in> set (posts s) \<and> ?mine p"
      using sub all_set by blast
    have 5: "\<forall>p \<in> set (posts s).
            p_author_id p \<noteq> A \<and> p_author_id p \<notin> u_id ` set (get_user_connections s A)
            \<longrightarrow> p \<notin> set (get_feed_posts s A skip limit)"
      using 4 by blast
    have 6: "\<forall>p \<in> set (posts s).
            p_author_id p \<in> u_id ` set (get_user_connections s A)
            \<longrightarrow> p \<in> set (get_feed_posts s A 0 (length (posts s)))"
      unfolding whole all_set by blast
    show ?thesis using 1 2 3 4 5 6 by blast
  qed
  show ?thesis using none some by blast
qed

text \<open>
  Claim C6 fails on the code, by the defect of claim C1. Users 1 and 2 are connected by the
  accepted request of user 1; the feed of user 1 holds the posts of user 2, and the feed of
  user 2 leaves out the post of user 1, because \<open>user.connections\<close> of user 2 is empty.
\<close>

theorem get_feed_posts_one_sided:
  "accept_connection_request ex_pending 1 = Inr (ex_accepted, Some (ex_request ''accepted''))
   \<and> ex_feed = ex_accepted\<lparr>posts := posts ex_feed\<rparr>
   \<and> get_feed_posts ex_feed 1 0 20 = [ex_post 4 2 40, ex_post 2 1 20, ex_post 1 2 10]
   \<and> ex_post 2 1 20 \<in> set (posts ex_feed)
   \<and> get_feed_posts ex_feed 2 0 20 = [ex_post 4 2 40, ex_post 1 2 10]"
proof -
  have acc: "accept_connection_request ex_pending 1
               = Inr (ex_accepted, Some (ex_request ''accepted''))"
    by (simp add: accept_connection_request_def ex_pending_def ex_accepted_def ex_two_def
        ex_db_def ex_user_def ex_request_def get_user_by_id_def)
  have same: "ex_feed = ex_accepted\<lparr>posts := posts ex_feed\<rparr>"
    by (simp add: ex_feed_def)
  have mem: "ex_post 2 1 20 \<in> set (posts ex_feed)"
    by (simp add: ex_feed_def)
  have one: "get_feed_posts ex_feed 1 0 20 = [ex_post 4 2 40, ex_post 2 1 20, ex_post 1 2 10]"
    by (simp add: get_feed_posts_def ex_feed_def ex_accepted_def ex_two_def ex_db_def
        ex_user_def ex_post_def ex_request_def user_connections_def newest_first_def Let_def)
  have two: "get_feed_posts ex_feed 2 0 20 = [ex_post 4 2 40, ex_post 1 2 10]"
    by (simp add: get_feed_posts_def ex_feed_def ex_accepted_def ex_two_def ex_db_def
        ex_user_def ex_post_def ex_request_def user_connections_def newest_first_def Let_def)
  show ?thesis using acc same mem one two by simp
qed

section \<open>Users: profile update\<close>


























lemma update_profile_foreign:
  assumes "get_user_by_id s uid = Some u"
    and "\<exists>k \<in> fst ` set kwargs. foreign inherited k"
  shows "update_profile inherited on_inherited s uid kwargs = on_inherited s u kwargs"
proof -
  from assms(2) have "list_ex (\<lambda>kv. foreign inherited (fst kv)) kwargs"
    by (auto simp: list_ex_iff)
  with assms(1) show ?thesis by (simp add: update_profile_def)
qed




end
